theory Spec2Isabelle
  imports Complex_Main "HOL-Library.AList"
begin

section \<open>Evaluation of a trained tagger: \<^verbatim>\<open>src_def/evaluate.py\<close>\<close>

text \<open>
  The development embeds the function \<^verbatim>\<open>evaluate\<close> and the script body of
  \<^verbatim>\<open>evaluate.py\<close>. Conventions:
  \<^item> Numbers (metric values, losses, counts) are exact rationals. The program computes
    with numpy and Python floating-point numbers; every statement below is about the
    arithmetic the code writes down, read exactly, and says nothing about rounding.
  \<^item> A Python dictionary is an association list in insertion order, read with
    \<open>map_of\<close>, written with \<open>AList.update\<close> (an existing key keeps its place, a new key
    goes to the end) and \<open>AList.delete\<close>.
  \<^item> Every \<^verbatim>\<open>raise\<close> is a value \<open>Inl e\<close>. A division whose divisor is zero is the
    error \<open>DivideByZero\<close>: Python raises \<^verbatim>\<open>ZeroDivisionError\<close> on its own numbers,
    numpy returns \<^verbatim>\<open>inf\<close> or \<^verbatim>\<open>nan\<close> with a warning; the rationals have neither,
    so the model stops there.
  \<^item> The network, the loss function and the metric functions come from modules other
    than \<^verbatim>\<open>evaluate.py\<close>; they are parameters, taken as total functions.
\<close>

subsection \<open>Errors and sequencing\<close>

datatype error =
    AssertionError
  | StopIteration
  | IndexError
  | KeyError
  | DivideByZero
  | External

definition ebind :: "error + 'a \<Rightarrow> ('a \<Rightarrow> error + 'b) \<Rightarrow> error + 'b" where
  "ebind m f = (case m of Inl e \<Rightarrow> Inl e | Inr v \<Rightarrow> f v)"

text \<open>A list comprehension whose elements may raise: the first error wins.\<close>

fun collect :: "(error + 'a) list \<Rightarrow> error + 'a list" where
  "collect [] = Inr []"
| "collect (x # xs) =
     (case x of
        Inl e \<Rightarrow> Inl e
      | Inr v \<Rightarrow> (case collect xs of Inl e \<Rightarrow> Inl e | Inr vs \<Rightarrow> Inr (v # vs)))"

subsection \<open>Dictionaries\<close>

type_synonym 'v dict = "(string \<times> 'v) list"

definition dict_keys :: "'v dict \<Rightarrow> string list" where
  "dict_keys d = map fst d"

text \<open>\<^verbatim>\<open>d[k]\<close>\<close>

definition dict_get :: "'v dict \<Rightarrow> string \<Rightarrow> error + 'v" where
  "dict_get d k = (case map_of d k of None \<Rightarrow> Inl KeyError | Some v \<Rightarrow> Inr v)"

text \<open>\<^verbatim>\<open>d[k] = v\<close>\<close>

definition dict_set :: "'v dict \<Rightarrow> string \<Rightarrow> 'v \<Rightarrow> 'v dict" where
  "dict_set d k v = AList.update k v d"

text \<open>\<^verbatim>\<open>del d[k]\<close>\<close>

definition dict_del :: "'v dict \<Rightarrow> string \<Rightarrow> error + 'v dict" where
  "dict_del d k =
     (case map_of d k of None \<Rightarrow> Inl KeyError | Some _ \<Rightarrow> Inr (AList.delete k d))"

text \<open>\<^verbatim>\<open>for x in ks: del d[x]\<close>\<close>

fun dict_del_all :: "string list \<Rightarrow> 'v dict \<Rightarrow> error + 'v dict" where
  "dict_del_all [] d = Inr d"
| "dict_del_all (k # ks) d = ebind (dict_del d k) (dict_del_all ks)"

text \<open>
  \<^verbatim>\<open>{k: f(k) for k in ks}\<close>, built key by key into the dictionary \<open>d\<close> (empty at
  the start); an error in \<open>f\<close> ends the comprehension.
\<close>

fun dict_comp :: "(string \<Rightarrow> error + 'v) \<Rightarrow> string list \<Rightarrow> 'v dict \<Rightarrow> error + 'v dict" where
  "dict_comp f [] d = Inr d"
| "dict_comp f (k # ks) d =
     (case f k of Inl e \<Rightarrow> Inl e | Inr v \<Rightarrow> dict_comp f ks (dict_set d k v))"

subsection \<open>Numbers and strings\<close>

definition np_sum :: "rat list \<Rightarrow> rat" where
  "np_sum xs = sum_list xs"

definition np_div :: "rat \<Rightarrow> rat \<Rightarrow> error + rat" where
  "np_div a b = (if b = 0 then Inl DivideByZero else Inr (a / b))"

definition np_mean :: "rat list \<Rightarrow> error + rat" where
  "np_mean xs = np_div (sum_list xs) (of_nat (length xs))"

text \<open>\<^verbatim>\<open>int(z)\<close> on a number: truncation towards zero.\<close>

definition py_int :: "rat \<Rightarrow> int" where
  "py_int z = (if 0 \<le> z then \<lfloor>z\<rfloor> else \<lceil>z\<rceil>)"

text \<open>\<^verbatim>\<open>sep.join(xs)\<close>\<close>

fun str_join :: "string \<Rightarrow> string list \<Rightarrow> string" where
  "str_join sep [] = []"
| "str_join sep [x] = x"
| "str_join sep (x # y # ys) = x @ sep @ str_join sep (y # ys)"

definition newline :: string where
  "newline = [CHR 0x0A]"

text \<open>\<^verbatim>\<open>os.path.join(a, b)\<close> of \<^verbatim>\<open>posixpath\<close>, for two components.\<close>

definition path_join :: "string \<Rightarrow> string \<Rightarrow> string" where
  "path_join a b =
     (if b \<noteq> [] \<and> hd b = CHR ''/'' then b
      else if a = [] \<or> last a = CHR ''/'' then a @ b
      else a @ ''/'' @ b)"

subsection \<open>The running average of \<^verbatim>\<open>utils\<close>\<close>

text \<open>
  Modelled from the spec: the class \<^verbatim>\<open>utils.RunningAverage\<close> is not in
  \<^verbatim>\<open>evaluate.py\<close>. The spec says of this loop that it "averages them across
  batches"; the accumulator keeps the number of updates and their total, and a call
  returns total over steps.
\<close>

record running_average =
  steps :: nat
  total :: rat

definition RunningAverage :: running_average where
  "RunningAverage = \<lparr>steps = 0, total = 0\<rparr>"

definition ra_update :: "running_average \<Rightarrow> rat \<Rightarrow> running_average" where
  "ra_update a val = \<lparr>steps = steps a + 1, total = total a + val\<rparr>"

definition ra_call :: "running_average \<Rightarrow> error + rat" where
  "ra_call a = np_div (total a) (of_nat (steps a))"

subsection \<open>Batches and the data iterator\<close>

text \<open>
  A batch is the dictionary \<^verbatim>\<open>data_batch\<close>: the entries the code reads by name, and
  \<open>inputs\<close> for whatever else the network reads. Tensors are lists: the labels a list
  of numbers, the output of the network a list of rows.
\<close>

record 'x data_batch =
  sentences :: "string list list"
  slabels :: "rat list"
  inputs :: 'x

text \<open>
  The generator \<^verbatim>\<open>data_iterator\<close>: the batches it has yet to yield. \<open>next_calls\<close>
  counts the calls of \<^verbatim>\<open>next\<close>; it is instrumentation, the code has no such field.
\<close>

record 'b iterator =
  remaining :: "'b list"
  next_calls :: nat

definition next_it :: "'b iterator \<Rightarrow> (error + 'b) \<times> 'b iterator" where
  "next_it it =
     (case remaining it of
        [] \<Rightarrow> (Inl StopIteration, it\<lparr>next_calls := next_calls it + 1\<rparr>)
      | b # bs \<Rightarrow> (Inr b, \<lparr>remaining = bs, next_calls = next_calls it + 1\<rparr>))"

subsection \<open>\<^verbatim>\<open>evaluate\<close>: the loop\<close>

type_synonym tensor = "rat list list"
type_synonym metric_fn = "tensor \<Rightarrow> rat list \<Rightarrow> rat"

text \<open>
  What \<^verbatim>\<open>evaluate\<close> reads from the globals of the script, \<^verbatim>\<open>args.model_dir\<close> and
  \<^verbatim>\<open>data_loader.sid2tag\<close>. The argument \<open>ctx\<close> of the functions below is \<open>Some\<close> of
  them when \<^verbatim>\<open>__name__ == '__main__'\<close> and \<open>None\<close> when the file is imported.
\<close>

record script_globals =
  g_model_dir :: string
  g_sid2tag :: "int \<rightharpoonup> string"

text \<open>
  The local variables \<^verbatim>\<open>summ\<close>, \<^verbatim>\<open>tagged_sentences\<close> and \<^verbatim>\<open>loss_avg\<close>. The list
  \<^verbatim>\<open>labels\<close> of line 37 is never read or written again and has no field.
\<close>

record loop_state =
  st_summ :: "rat dict list"
  st_tagged_sentences :: "string list"
  st_loss_avg :: running_average

definition init_state :: loop_state where
  "init_state = \<lparr>st_summ = [], st_tagged_sentences = [], st_loss_avg = RunningAverage\<rparr>"

text \<open>Lines 55 to 57: the metrics of one batch, then its loss under the key \<^verbatim>\<open>loss\<close>.\<close>

definition summary_batch :: "metric_fn dict \<Rightarrow> tensor \<Rightarrow> rat list \<Rightarrow> rat \<Rightarrow> error + rat dict" where
  "summary_batch metrics output_batch labels_batch loss =
     ebind (dict_comp (\<lambda>metric. ebind (dict_get metrics metric)
                                   (\<lambda>f. Inr (f output_batch labels_batch)))
              (dict_keys metrics) [])
       (\<lambda>s. Inr (dict_set s ''loss'' loss))"

text \<open>Lines 64 to 66: one tagged sentence.\<close>

definition tagged_sent :: "(int \<rightharpoonup> string) \<Rightarrow> string list \<Rightarrow> bool list \<Rightarrow> rat \<Rightarrow> error + string" where
  "tagged_sent sid2tag x y z =
     (let z' = py_int z in
      case y of
        [] \<Rightarrow> Inl IndexError
      | y0 # _ \<Rightarrow>
          (let y' = (if y0 then 1 else 0) in
           case sid2tag y' of
             None \<Rightarrow> Inl KeyError
           | Some ty \<Rightarrow>
               (case sid2tag z' of
                  None \<Rightarrow> Inl KeyError
                | Some tz \<Rightarrow>
                    Inr (str_join '' '' x @ ''<'' @ ty @ ''/>'' @ ''<'' @ tz @ ''/>''))))"

text \<open>Lines 60 to 67, the part of the loop body that runs in the script only.\<close>

definition tag_batch :: "(int \<rightharpoonup> string) \<Rightarrow> 'x data_batch \<Rightarrow> tensor \<Rightarrow> error + string list" where
  "tag_batch sid2tag data_batch output_batch =
     collect (map (\<lambda>(x, y, z). tagged_sent sid2tag x y z)
       (zip (sentences data_batch)
         (zip (map (map (\<lambda>v. v > 1 / 2)) output_batch) (slabels data_batch))))"

text \<open>Lines 44 to 70: the body of the loop on a fetched batch.\<close>

definition loop_body ::
  "script_globals option \<Rightarrow> ('x data_batch \<Rightarrow> tensor) \<Rightarrow> (tensor \<Rightarrow> rat list \<Rightarrow> rat) \<Rightarrow>
   metric_fn dict \<Rightarrow> 'x data_batch \<Rightarrow> loop_state \<Rightarrow> error + loop_state" where
  "loop_body ctx model loss_fn metrics data_batch st =
     (let labels_batch = slabels data_batch;
          output_batch = model data_batch;
          loss = loss_fn output_batch labels_batch
      in ebind (summary_batch metrics output_batch labels_batch loss) (\<lambda>s.
         ebind (case ctx of
                  None \<Rightarrow> Inr []
                | Some g \<Rightarrow> tag_batch (g_sid2tag g) data_batch output_batch) (\<lambda>tagged.
         Inr \<lparr>st_summ = st_summ st @ [s],
              st_tagged_sentences = st_tagged_sentences st @ tagged,
              st_loss_avg = ra_update (st_loss_avg st) loss\<rparr>)))"

text \<open>
  The summary dictionary and the loss that the body computes for a batch, named so
  that the statements below can speak of them.
\<close>

definition batch_loss :: "('x data_batch \<Rightarrow> tensor) \<Rightarrow> (tensor \<Rightarrow> rat list \<Rightarrow> rat) \<Rightarrow> 'x data_batch \<Rightarrow> rat" where
  "batch_loss model loss_fn b = loss_fn (model b) (slabels b)"

definition batch_summary ::
  "('x data_batch \<Rightarrow> tensor) \<Rightarrow> (tensor \<Rightarrow> rat list \<Rightarrow> rat) \<Rightarrow> metric_fn dict \<Rightarrow>
   'x data_batch \<Rightarrow> error + rat dict" where
  "batch_summary model loss_fn metrics b =
     summary_batch metrics (model b) (slabels b) (batch_loss model loss_fn b)"

text \<open>
  Lines 41 to 70: \<^verbatim>\<open>for _ in range(num_steps)\<close>, here with the number of rounds
  left. The iterator is returned too: it keeps its state when the loop raises.
\<close>

fun evaluate_loop ::
  "script_globals option \<Rightarrow> ('x data_batch \<Rightarrow> tensor) \<Rightarrow> (tensor \<Rightarrow> rat list \<Rightarrow> rat) \<Rightarrow>
   metric_fn dict \<Rightarrow> nat \<Rightarrow> 'x data_batch iterator \<Rightarrow> loop_state \<Rightarrow>
   (error + loop_state) \<times> 'x data_batch iterator" where
  "evaluate_loop ctx model loss_fn metrics 0 it st = (Inr st, it)"
| "evaluate_loop ctx model loss_fn metrics (Suc k) it st =
     (case next_it it of
        (Inl e, it') \<Rightarrow> (Inl e, it')
      | (Inr data_batch, it') \<Rightarrow>
          (case loop_body ctx model loss_fn metrics data_batch st of
             Inl e \<Rightarrow> (Inl e, it')
           | Inr st' \<Rightarrow> evaluate_loop ctx model loss_fn metrics k it' st'))"

subsection \<open>\<^verbatim>\<open>evaluate\<close>: aggregation\<close>

text \<open>\<^verbatim>\<open>[x[metric] for x in summ]\<close>\<close>

definition column :: "rat dict list \<Rightarrow> string \<Rightarrow> error + rat list" where
  "column summ metric = collect (map (\<lambda>x. dict_get x metric) summ)"

text \<open>Line 72. \<^verbatim>\<open>summ[0]\<close> raises on the empty list.\<close>

definition metrics_mean_of :: "rat dict list \<Rightarrow> error + rat dict" where
  "metrics_mean_of summ =
     (case summ of
        [] \<Rightarrow> Inl IndexError
      | s0 # _ \<Rightarrow> dict_comp (\<lambda>metric. ebind (column summ metric) np_mean) (dict_keys s0) [])"

text \<open>Line 73.\<close>

definition metrics_sum_of :: "rat dict list \<Rightarrow> error + rat dict" where
  "metrics_sum_of summ =
     (case summ of
        [] \<Rightarrow> Inl IndexError
      | s0 # _ \<Rightarrow>
          dict_comp (\<lambda>metric. ebind (column summ metric) (\<lambda>vs. Inr (np_sum vs)))
            (dict_keys s0) [])"

text \<open>Lines 78 to 82: precision, recall and F1 from the summed counts.\<close>

definition scores :: "rat \<Rightarrow> rat \<Rightarrow> rat \<Rightarrow> error + (rat \<times> rat \<times> rat)" where
  "scores tp fp fn =
     (if tp \<noteq> 0 then
        ebind (np_div tp (tp + fp)) (\<lambda>p.
        ebind (np_div tp (tp + fn)) (\<lambda>r.
        ebind (np_div (2 * (p * r)) (p + r)) (\<lambda>f1.
        Inr (p, r, f1))))
      else Inr (0, 0, 0))"

text \<open>Lines 72 to 87: the dictionary \<^verbatim>\<open>metrics_mean\<close> that \<^verbatim>\<open>evaluate\<close> returns.\<close>

definition aggregate :: "rat dict list \<Rightarrow> error + rat dict" where
  "aggregate summ =
     ebind (metrics_mean_of summ) (\<lambda>metrics_mean.
     ebind (metrics_sum_of summ) (\<lambda>metrics_sum.
     ebind (dict_get metrics_sum ''tp'') (\<lambda>tp.
     ebind (dict_get metrics_sum ''fp'') (\<lambda>fp.
     ebind (dict_get metrics_sum ''fn'') (\<lambda>fn.
     ebind (scores tp fp fn) (\<lambda>(p, r, f1).
     dict_del_all [''tp'', ''fp'', ''fn'']
       (dict_set (dict_set (dict_set metrics_mean ''f1score'' f1) ''precision'' p)
          ''recall'' r)))))))"

subsection \<open>\<^verbatim>\<open>evaluate\<close>\<close>

text \<open>
  The result is the value returned or the error raised, the files written (path and
  content), and the iterator as the call leaves it. \<^verbatim>\<open>range(num_steps)\<close> is empty for
  a negative \<^verbatim>\<open>num_steps\<close>. The argument \<^verbatim>\<open>params\<close> is not read by the body and
  \<^verbatim>\<open>model.eval()\<close> and the logging of line 90 change nothing that is returned; they
  are left out.
\<close>

definition evaluate ::
  "script_globals option \<Rightarrow> ('x data_batch \<Rightarrow> tensor) \<Rightarrow> (tensor \<Rightarrow> rat list \<Rightarrow> rat) \<Rightarrow>
   metric_fn dict \<Rightarrow> 'x data_batch iterator \<Rightarrow> int \<Rightarrow>
   (error + (rat dict \<times> rat)) \<times> (string \<times> string) list \<times> 'x data_batch iterator" where
  "evaluate ctx model loss_fn metrics data_iterator num_steps =
     (case evaluate_loop ctx model loss_fn metrics (nat num_steps) data_iterator init_state of
        (Inl e, it') \<Rightarrow> (Inl e, [], it')
      | (Inr st, it') \<Rightarrow>
          (case aggregate (st_summ st) of
             Inl e \<Rightarrow> (Inl e, [], it')
           | Inr metrics_mean \<Rightarrow>
               (let written =
                      (case ctx of
                         None \<Rightarrow> []
                       | Some g \<Rightarrow>
                           [(path_join (g_model_dir g) ''output_tagged_sentences.txt'',
                             str_join newline (st_tagged_sentences st))])
                in case ra_call (st_loss_avg st) of
                     Inl e \<Rightarrow> (Inl e, written, it')
                   | Inr la \<Rightarrow> (Inr (metrics_mean, la), written, it'))))"

subsection \<open>The script\<close>

text \<open>The command line: \<^verbatim>\<open>--data_dir\<close>, \<^verbatim>\<open>--model_dir\<close>, \<^verbatim>\<open>--restore_file\<close> and their defaults.\<close>

record args =
  data_dir :: string
  model_dir :: string
  restore_file :: string

definition default_args :: args where
  "default_args =
     \<lparr>data_dir = ''data/small'', model_dir = ''experiments/base_model'', restore_file = ''best''\<rparr>"

text \<open>The fields of \<^verbatim>\<open>params\<close> that the script reads.\<close>

record params =
  model_type :: string
  batch_size :: int

text \<open>
  What the script takes from the loaded test set: \<^verbatim>\<open>test_data['size']\<close>, the batches
  that \<^verbatim>\<open>data_loader.data_iterator(test_data, params)\<close> yields, and
  \<^verbatim>\<open>data_loader.sid2tag\<close>.
\<close>

record 'x test_data =
  t_size :: int
  batches :: "'x data_batch list"
  sid2tag :: "int \<rightharpoonup> string"

text \<open>
  The code the script calls and does not define: the file system, \<^verbatim>\<open>utils\<close>,
  \<^verbatim>\<open>model.data_loader\<close> and \<^verbatim>\<open>model.net\<close>. Each call is a field; a result
  \<open>None\<close> or \<open>False\<close> says that the call raised. The script reports that as the error
  \<open>External\<close>, so \<open>AssertionError\<close> is the \<^verbatim>\<open>assert\<close> statement of the script
  itself and nothing else.
\<close>

record ('x, 'net) world =
  isfile :: "string \<Rightarrow> bool"
  Params :: "string \<Rightarrow> params option"
  set_logger :: "string \<Rightarrow> bool"
  load_test :: "string \<Rightarrow> params \<Rightarrow> 'x test_data option"
  BertDEF :: "params \<Rightarrow> 'net option"
  SBertDEF :: "params \<Rightarrow> 'net option"
  LuisNet :: "params \<Rightarrow> 'net option"
  load_checkpoint :: "string \<Rightarrow> 'net \<Rightarrow> 'net option"
  forward :: "'net \<Rightarrow> 'x data_batch \<Rightarrow> tensor"
  net_loss_fn :: "tensor \<Rightarrow> rat list \<Rightarrow> rat"
  net_metrics :: "metric_fn dict"
  save_dict_to_json :: "rat dict \<Rightarrow> string \<Rightarrow> bool"

text \<open>The file accesses of a run, in the order the script makes them.\<close>

datatype io_event =
    IsFile string
  | ReadJson string
  | LogFile string
  | LoadData string
  | LoadCheckpoint string
  | WriteText string string
  | SaveJson string "rat dict"

text \<open>
  Lines 106 to 149: from the command line to the network with its weights restored.
  The result is the trace of file accesses with what was loaded or the error that
  ended the run. An access is in the trace from the moment the script attempts it.
  Seeding and the choice of device have no part in what follows and are left out.
\<close>

definition main_load ::
  "('x, 'net) world \<Rightarrow> args \<Rightarrow> io_event list \<times> (error + (params \<times> 'x test_data \<times> 'net))" where
  "main_load w args =
     (let json_path = path_join (model_dir args) ''params.json'';
          log_path = path_join (model_dir args) ''evaluate.log'';
          checkpoint = path_join (model_dir args) (restore_file args @ ''.pth.tar'');
          e1 = [IsFile json_path];
          e2 = e1 @ [ReadJson json_path];
          e3 = e2 @ [LogFile log_path];
          e4 = e3 @ [LoadData (data_dir args)];
          e5 = e4 @ [LoadCheckpoint checkpoint]
      in if \<not> isfile w json_path then (e1, Inl AssertionError)
         else (case Params w json_path of
                 None \<Rightarrow> (e2, Inl External)
               | Some params \<Rightarrow>
                   if \<not> set_logger w log_path then (e3, Inl External)
                   else (case load_test w (data_dir args) params of
                           None \<Rightarrow> (e4, Inl External)
                         | Some test \<Rightarrow>
                             (case (if model_type params = ''bert'' then BertDEF w params
                                    else if model_type params = ''sbert'' then SBertDEF w params
                                    else LuisNet w params) of
                                None \<Rightarrow> (e4, Inl External)
                              | Some model \<Rightarrow>
                                  (case load_checkpoint w checkpoint model of
                                     None \<Rightarrow> (e5, Inl External)
                                   | Some restored \<Rightarrow> (e5, Inr (params, test, restored)))))))"

text \<open>
  Lines 106 to 155, the whole script: the trace of file accesses and the metrics
  saved, or the error that ended the run. Opening the dump of tagged sentences for
  writing is taken to succeed.
\<close>

definition main :: "('x, 'net) world \<Rightarrow> args \<Rightarrow> io_event list \<times> (error + rat dict)" where
  "main w args =
     (case main_load w args of
        (e5, Inl e) \<Rightarrow> (e5, Inl e)
      | (e5, Inr (params, test, restored)) \<Rightarrow>
          if batch_size params = 0 then (e5, Inl DivideByZero)
          else
            (let num_steps = (t_size test + 1) div batch_size params
             in case evaluate (Some \<lparr>g_model_dir = model_dir args, g_sid2tag = sid2tag test\<rparr>)
                       (forward w restored) (net_loss_fn w) (net_metrics w)
                       \<lparr>remaining = batches test, next_calls = 0\<rparr> num_steps of
                  (result, written, it') \<Rightarrow>
                    (let e6 = e5 @ map (\<lambda>(p, c). WriteText p c) written
                     in case result of
                          Inl e \<Rightarrow> (e6, Inl e)
                        | Inr (test_metrics, la) \<Rightarrow>
                            (let save_path =
                                   path_join (model_dir args)
                                     (''metrics_test_'' @ restore_file args @ ''.json'');
                                 e7 = e6 @ [SaveJson save_path test_metrics]
                             in if save_dict_to_json w test_metrics save_path
                                then (e7, Inr test_metrics)
                                else (e7, Inl External)))))"


subsection \<open>A small run, for the examples\<close>

text \<open>
  A network that answers with the labels it is given, a constant loss, and metrics
  that are constants: enough to run \<^verbatim>\<open>evaluate\<close> and the script on concrete data.
\<close>

definition example_batch :: "unit data_batch" where
  "example_batch = \<lparr>sentences = [''a'', ''term''] # [], slabels = [1], inputs = ()\<rparr>"

definition example_model :: "unit data_batch \<Rightarrow> tensor" where
  "example_model b = map (\<lambda>l. [l]) (slabels b)"

definition example_loss_fn :: "tensor \<Rightarrow> rat list \<Rightarrow> rat" where
  "example_loss_fn output labels = 1 / 4"

definition metric_const :: "rat \<Rightarrow> metric_fn" where
  "metric_const c output labels = c"

definition example_metrics :: "metric_fn dict" where
  "example_metrics =
     [(''accuracy'', metric_const (3 / 4)), (''tp'', metric_const 1),
      (''fp'', metric_const 1), (''fn'', metric_const 1)]"


definition example_iterator :: "unit data_batch iterator" where
  "example_iterator = \<lparr>remaining = [example_batch, example_batch], next_calls = 0\<rparr>"

definition example_world :: "(unit, unit) world" where
  "example_world =
     \<lparr>isfile = (\<lambda>p. p = ''experiments/base_model/params.json''),
      Params = (\<lambda>p. Some \<lparr>model_type = ''bert'', batch_size = 1\<rparr>),
      set_logger = (\<lambda>p. True),
      load_test = (\<lambda>d p. Some \<lparr>t_size = 1, batches = [example_batch, example_batch],
                                 sid2tag = map_of [(0, ''none''), (1, ''definition'')]\<rparr>),
      BertDEF = (\<lambda>p. Some ()),
      SBertDEF = (\<lambda>p. Some ()),
      LuisNet = (\<lambda>p. Some ()),
      load_checkpoint = (\<lambda>p net. Some net),
      forward = (\<lambda>net. example_model),
      net_loss_fn = example_loss_fn,
      net_metrics = example_metrics,
      save_dict_to_json = (\<lambda>d p. True)\<rparr>"


text \<open>What the run on two batches leaves behind and returns.\<close>

definition example_summary :: "rat dict" where
  "example_summary =
     [(''accuracy'', 3 / 4), (''tp'', 1), (''fp'', 1), (''fn'', 1), (''loss'', 1 / 4)]"

definition example_final_state :: loop_state where
  "example_final_state =
     \<lparr>st_summ = [example_summary, example_summary],
      st_tagged_sentences = [],
      st_loss_avg = \<lparr>steps = 2, total = 1 / 2\<rparr>\<rparr>"

definition example_result :: "rat dict" where
  "example_result =
     [(''accuracy'', 3 / 4), (''loss'', 1 / 4), (''f1score'', 1 / 2),
      (''precision'', 1 / 2), (''recall'', 1 / 2)]"

definition exhausted_iterator :: "unit data_batch iterator" where
  "exhausted_iterator = \<lparr>remaining = [], next_calls = 2\<rparr>"

text \<open>Metrics that find no true positive, and the run on one batch with either set of metrics.\<close>

definition no_hit_metrics :: "metric_fn dict" where
  "no_hit_metrics =
     [(''accuracy'', metric_const (1 / 4)), (''tp'', metric_const 0),
      (''fp'', metric_const 1), (''fn'', metric_const 1)]"

definition no_hit_summary :: "rat dict" where
  "no_hit_summary =
     [(''accuracy'', 1 / 4), (''tp'', 0), (''fp'', 1), (''fn'', 1), (''loss'', 1 / 4)]"

definition no_hit_result :: "rat dict" where
  "no_hit_result =
     [(''accuracy'', 1 / 4), (''loss'', 1 / 4), (''f1score'', 0), (''precision'', 0),
      (''recall'', 0)]"

definition one_batch_state :: "rat dict \<Rightarrow> loop_state" where
  "one_batch_state s =
     \<lparr>st_summ = [s], st_tagged_sentences = [], st_loss_avg = \<lparr>steps = 1, total = 1 / 4\<rparr>\<rparr>"

definition one_left_iterator :: "unit data_batch iterator" where
  "one_left_iterator = \<lparr>remaining = [example_batch], next_calls = 1\<rparr>"

text \<open>The same world without the configuration file.\<close>

definition unconfigured_world :: "(unit, unit) world" where
  "unconfigured_world = example_world\<lparr>isfile := (\<lambda>p. False)\<rparr>"


section \<open>Properties\<close>

subsection \<open>The example run\<close>

lemma example_evaluate:
  "evaluate None example_model example_loss_fn example_metrics example_iterator 2 =
     (Inr (example_result, 1 / 4), [], exhausted_iterator)"
  by code_simp

lemma example_evaluate_loop:
  "evaluate_loop None example_model example_loss_fn example_metrics (nat 2) example_iterator
     init_state = (Inr example_final_state, exhausted_iterator)"
  by code_simp



lemma one_batch_evaluate:
  "evaluate None example_model example_loss_fn example_metrics example_iterator 1 =
     (Inr (example_result, 1 / 4), [], one_left_iterator)"
  "evaluate None example_model example_loss_fn no_hit_metrics example_iterator 1 =
     (Inr (no_hit_result, 1 / 4), [], one_left_iterator)"
  by code_simp+

lemma one_batch_evaluate_loop:
  "evaluate_loop None example_model example_loss_fn example_metrics (nat 1) example_iterator
     init_state = (Inr (one_batch_state example_summary), one_left_iterator)"
  "evaluate_loop None example_model example_loss_fn no_hit_metrics (nat 1) example_iterator
     init_state = (Inr (one_batch_state no_hit_summary), one_left_iterator)"
  by code_simp+

lemma one_batch_columns:
  "column (st_summ (one_batch_state example_summary)) ''tp'' = Inr [1]"
  "column (st_summ (one_batch_state example_summary)) ''fp'' = Inr [1]"
  "column (st_summ (one_batch_state example_summary)) ''fn'' = Inr [1]"
  "column (st_summ (one_batch_state no_hit_summary)) ''tp'' = Inr [0]"
  "column (st_summ (one_batch_state no_hit_summary)) ''fp'' = Inr [1]"
  "column (st_summ (one_batch_state no_hit_summary)) ''fn'' = Inr [1]"
  by code_simp+

subsection \<open>Sequencing, comprehensions, division\<close>

lemma ebind_Inl [simp]: "ebind (Inl e) f = Inl e"
  by (simp add: ebind_def)

lemma ebind_Inr [simp]: "ebind (Inr v) f = f v"
  by (simp add: ebind_def)

lemma ebind_eq_Inr: "ebind m f = Inr y \<longleftrightarrow> (\<exists>v. m = Inr v \<and> f v = Inr y)"
  by (cases m) simp_all

lemma collect_map_Inr: "collect (map Inr vs) = Inr vs"
  by (induction vs) simp_all

lemma collect_Inr_D: "collect xs = Inr vs \<Longrightarrow> xs = map Inr vs"
  by (induction xs arbitrary: vs) (auto split: sum.splits)

lemma collect_eq_Inr: "collect xs = Inr vs \<longleftrightarrow> xs = map Inr vs"
  using collect_map_Inr collect_Inr_D by metis

lemma np_div_eq_Inr: "np_div a b = Inr q \<longleftrightarrow> b \<noteq> 0 \<and> q = a / b"
  by (auto simp: np_div_def)


subsection \<open>Precision, recall and F1 from the summed counts\<close>


lemma scores_counts:
  assumes "tp \<noteq> (0::rat)" "0 \<le> tp" "0 \<le> (fp::rat)" "0 \<le> (fn::rat)"
  shows "tp + fp \<noteq> 0 \<and> tp + fn \<noteq> 0 \<and> tp / (tp + fp) + tp / (tp + fn) \<noteq> 0"
proof -
  from assms have tp: "0 < tp" by linarith
  with assms have a: "0 < tp + fp" and b: "0 < tp + fn" by simp_all
  from tp a have p: "0 < tp / (tp + fp)" by simp
  from tp b have r: "0 < tp / (tp + fn)" by simp
  from p r have "0 < tp / (tp + fp) + tp / (tp + fn)" by (rule add_pos_pos)
  with a b show ?thesis by simp
qed

subsection \<open>Dictionaries and the aggregates\<close>

lemma dict_get_eq_Inr: "dict_get d k = Inr v \<longleftrightarrow> map_of d k = Some v"
  by (simp add: dict_get_def split: option.splits)

lemma map_of_dict_set: "map_of (dict_set d k v) = (map_of d)(k \<mapsto> v)"
  by (simp add: dict_set_def update_conv')

lemma dict_del_eq_Inr:
  "dict_del d k = Inr d' \<longleftrightarrow> map_of d k \<noteq> None \<and> d' = AList.delete k d"
  by (auto simp: dict_del_def split: option.splits)

lemma dict_del_all_lookup:
  "dict_del_all ks d = Inr d' \<Longrightarrow> map_of d' k = (if k \<in> set ks then None else map_of d k)"
proof (induction ks arbitrary: d)
  case Nil
  then show ?case by simp
next
  case (Cons a ks)
  from Cons.prems obtain d1 where d1: "d1 = AList.delete a d" and rest: "dict_del_all ks d1 = Inr d'"
    by (auto simp: ebind_eq_Inr dict_del_eq_Inr)
  from Cons.IH [OF rest] d1 show ?case
    by (simp add: delete_conv')
qed

lemma dict_comp_lookup:
  "dict_comp f ks d = Inr d' \<Longrightarrow>
     map_of d' k = (if k \<in> set ks then (case f k of Inr v \<Rightarrow> Some v | Inl e \<Rightarrow> None) else map_of d k)"
proof (induction ks arbitrary: d)
  case Nil
  then show ?case by simp
next
  case (Cons a ks)
  then show ?case
    by (auto simp: map_of_dict_set split: sum.splits)
qed

lemma dict_comp_defined:
  "dict_comp f ks d = Inr d' \<Longrightarrow> k \<in> set ks \<Longrightarrow> \<exists>v. f k = Inr v"
  by (induction ks arbitrary: d) (auto split: sum.splits)

lemma dict_comp_total:
  "(\<And>k. k \<in> set ks \<Longrightarrow> \<exists>v. f k = Inr v) \<Longrightarrow> \<exists>d'. dict_comp f ks d = Inr d'"
  by (induction ks arbitrary: d) (fastforce split: sum.splits)+

lemma dict_keys_dom: "set (dict_keys d) = dom (map_of d)"
  by (simp add: dict_keys_def dom_map_of_conv_image_fst)

lemma in_dict_keys: "k \<in> set (dict_keys d) \<longleftrightarrow> map_of d k \<noteq> None"
  by (auto simp: dict_keys_dom)

text \<open>The summary of a batch: always defined.\<close>

lemma summary_batch_total: "\<exists>s. summary_batch metrics output labels loss = Inr s"
proof -
  have "\<exists>d'. dict_comp (\<lambda>metric. ebind (dict_get metrics metric) (\<lambda>f. Inr (f output labels)))
          (dict_keys metrics) [] = Inr d'"
  proof (rule dict_comp_total)
    fix k assume "k \<in> set (dict_keys metrics)"
    then obtain f where "map_of metrics k = Some f"
      by (auto simp: in_dict_keys)
    then show "\<exists>v. ebind (dict_get metrics k) (\<lambda>f. Inr (f output labels)) = Inr v"
      by (simp add: dict_get_def)
  qed
  then show ?thesis
    by (auto simp: summary_batch_def)
qed

lemma summary_batch_lookup:
  assumes "summary_batch metrics output labels loss = Inr s"
  shows "map_of s k =
           (if k = ''loss'' then Some loss
            else map_option (\<lambda>f. f output labels) (map_of metrics k))"
proof -
  from assms obtain d where
    d: "dict_comp (\<lambda>metric. ebind (dict_get metrics metric) (\<lambda>f. Inr (f output labels)))
          (dict_keys metrics) [] = Inr d"
    and s: "s = dict_set d ''loss'' loss"
    by (auto simp: summary_batch_def ebind_eq_Inr)
  have "map_of d k = map_option (\<lambda>f. f output labels) (map_of metrics k)"
  proof (cases "map_of metrics k")
    case None
    then have "k \<notin> set (dict_keys metrics)" by (simp add: in_dict_keys)
    with dict_comp_lookup [OF d, of k] None show ?thesis by simp
  next
    case (Some f)
    then have "k \<in> set (dict_keys metrics)" by (simp add: in_dict_keys)
    with dict_comp_lookup [OF d, of k] Some show ?thesis by (simp add: dict_get_def)
  qed
  with s show ?thesis by (simp add: map_of_dict_set)
qed

lemma column_eq_Inr:
  "column summ k = Inr vs \<longleftrightarrow> map (\<lambda>x. map_of x k) summ = map Some vs"
proof -
  have "(map (\<lambda>x. dict_get x k) summ = map Inr vs) = (map (\<lambda>x. map_of x k) summ = map Some vs)"
  proof (induction summ arbitrary: vs)
    case Nil
    then show ?case by simp
  next
    case (Cons a summ)
    then show ?case by (cases vs) (auto simp: dict_get_eq_Inr)
  qed
  then show ?thesis by (simp add: column_def collect_eq_Inr)
qed

lemma column_length: "column summ k = Inr vs \<Longrightarrow> length vs = length summ"
  by (metis column_eq_Inr length_map)

lemma np_mean_eq_Inr: "np_mean vs = Inr m \<longleftrightarrow> vs \<noteq> [] \<and> m = sum_list vs / of_nat (length vs)"
  by (auto simp: np_mean_def np_div_eq_Inr)

lemma metrics_mean_of_lookup:
  assumes "metrics_mean_of summ = Inr mm"
  shows "summ \<noteq> []"
    and "map_of (hd summ) k = None \<Longrightarrow> map_of mm k = None"
    and "map_of (hd summ) k \<noteq> None \<Longrightarrow>
           \<exists>vs. column summ k = Inr vs \<and> map_of mm k = Some (sum_list vs / of_nat (length summ))"
proof -
  from assms show ne: "summ \<noteq> []"
    by (auto simp: metrics_mean_of_def)
  then obtain s0 rest where summ: "summ = s0 # rest" by (cases summ) auto
  with assms have dc: "dict_comp (\<lambda>metric. ebind (column summ metric) np_mean) (dict_keys s0) [] = Inr mm"
    by (simp add: metrics_mean_of_def)
  {
    assume "map_of (hd summ) k = None"
    then have "k \<notin> set (dict_keys s0)" using summ by (simp add: in_dict_keys)
    with dict_comp_lookup [OF dc, of k] show "map_of mm k = None" by simp
  }
  {
    assume "map_of (hd summ) k \<noteq> None"
    then have k: "k \<in> set (dict_keys s0)" using summ by (simp add: in_dict_keys)
    from dict_comp_defined [OF dc k] obtain m where m: "ebind (column summ k) np_mean = Inr m"
      by auto
    then obtain vs where vs: "column summ k = Inr vs" and mean: "np_mean vs = Inr m"
      by (auto simp: ebind_eq_Inr)
    from dict_comp_lookup [OF dc, of k] k m have "map_of mm k = Some m" by simp
    with vs mean column_length [OF vs]
    show "\<exists>vs. column summ k = Inr vs \<and> map_of mm k = Some (sum_list vs / of_nat (length summ))"
      by (auto simp: np_mean_eq_Inr)
  }
qed

lemma metrics_sum_of_lookup:
  assumes "metrics_sum_of summ = Inr ms" and "map_of ms k = Some v"
  shows "\<exists>vs. column summ k = Inr vs \<and> v = np_sum vs"
proof -
  from assms(1) obtain s0 rest where summ: "summ = s0 # rest"
    by (cases summ) (auto simp: metrics_sum_of_def)
  with assms(1) have dc: "dict_comp (\<lambda>metric. ebind (column summ metric) (\<lambda>vs. Inr (np_sum vs))) (dict_keys s0) [] = Inr ms"
    by (simp add: metrics_sum_of_def)
  from dict_comp_lookup [OF dc, of k] assms(2) have k: "k \<in> set (dict_keys s0)"
    by (auto split: if_splits)
  from dict_comp_defined [OF dc k] obtain m where m: "ebind (column summ k) (\<lambda>vs. Inr (np_sum vs)) = Inr m"
    by auto
  then obtain vs where vs: "column summ k = Inr vs" and sum: "m = np_sum vs"
    by (auto simp: ebind_eq_Inr)
  from dict_comp_lookup [OF dc, of k] k m assms(2) have "v = m" by simp
  with vs sum show ?thesis by simp
qed

subsection \<open>The loop and the result of \<^verbatim>\<open>evaluate\<close>\<close>

lemma loop_body_Inr_D:
  assumes "loop_body ctx model loss_fn metrics b st = Inr st'"
  shows "\<exists>s. batch_summary model loss_fn metrics b = Inr s \<and>
             st_summ st' = st_summ st @ [s] \<and>
             st_loss_avg st' = ra_update (st_loss_avg st) (batch_loss model loss_fn b)"
  using assms
  by (auto simp: loop_body_def batch_summary_def batch_loss_def Let_def ebind_eq_Inr)

lemma batch_summary_total: "\<exists>s. batch_summary model loss_fn metrics b = Inr s"
  by (simp add: batch_summary_def summary_batch_total)

lemma loop_body_total:
  "\<exists>st'. loop_body None model loss_fn metrics b st = Inr st'"
  using summary_batch_total [of metrics "model b" "slabels b" "loss_fn (model b) (slabels b)"]
  by (auto simp: loop_body_def Let_def)

lemma next_it_Inr:
  "next_it it = (Inr b, it') \<longleftrightarrow>
     (\<exists>bs. remaining it = b # bs \<and> it' = \<lparr>remaining = bs, next_calls = next_calls it + 1\<rparr>)"
  by (auto simp: next_it_def split: list.splits)

lemma evaluate_loop_Inr_D:
  "evaluate_loop ctx model loss_fn metrics k it st = (Inr st', it') \<Longrightarrow>
     k \<le> length (remaining it) \<and> remaining it' = drop k (remaining it) \<and>
     next_calls it' = next_calls it + k \<and>
     map Inr (st_summ st') =
       map Inr (st_summ st) @ map (batch_summary model loss_fn metrics) (take k (remaining it)) \<and>
     steps (st_loss_avg st') = steps (st_loss_avg st) + k \<and>
     total (st_loss_avg st') =
       total (st_loss_avg st) + sum_list (map (batch_loss model loss_fn) (take k (remaining it)))"
proof (induction k arbitrary: it st)
  case 0
  then show ?case by simp
next
  case (Suc k)
  from Suc.prems obtain b it1 st1 where
    nx: "next_it it = (Inr b, it1)" and
    body: "loop_body ctx model loss_fn metrics b st = Inr st1" and
    rest: "evaluate_loop ctx model loss_fn metrics k it1 st1 = (Inr st', it')"
    by (auto split: prod.splits sum.splits)
  from nx obtain bs where it: "remaining it = b # bs" and
    it1: "it1 = \<lparr>remaining = bs, next_calls = next_calls it + 1\<rparr>"
    by (auto simp: next_it_Inr)
  from loop_body_Inr_D [OF body] obtain s where
    s: "batch_summary model loss_fn metrics b = Inr s" and
    summ1: "st_summ st1 = st_summ st @ [s]" and
    avg1: "st_loss_avg st1 = ra_update (st_loss_avg st) (batch_loss model loss_fn b)"
    by auto
  note ih = Suc.IH [OF rest]
  from ih have len: "k \<le> length (remaining it1)" by simp
  from ih have rem: "remaining it' = drop k (remaining it1)" by simp
  from ih have calls: "next_calls it' = next_calls it1 + k" by simp
  from ih have maps: "map Inr (st_summ st') =
       map Inr (st_summ st1) @ map (batch_summary model loss_fn metrics) (take k (remaining it1))"
    by simp
  from ih have st: "steps (st_loss_avg st') = steps (st_loss_avg st1) + k" by simp
  from ih have tot: "total (st_loss_avg st') =
       total (st_loss_avg st1) + sum_list (map (batch_loss model loss_fn) (take k (remaining it1)))"
    by simp
  have "map Inr (st_summ st') =
       map Inr (st_summ st) @ map (batch_summary model loss_fn metrics) (take (Suc k) (remaining it))"
    using maps summ1 s it it1 by simp
  moreover have "Suc k \<le> length (remaining it)"
    using len it it1 by simp
  moreover have "remaining it' = drop (Suc k) (remaining it)"
    using rem it it1 by simp
  moreover have "next_calls it' = next_calls it + Suc k"
    using calls it1 by simp
  moreover have "steps (st_loss_avg st') = steps (st_loss_avg st) + Suc k"
    using st avg1 by (simp add: ra_update_def)
  moreover have "total (st_loss_avg st') =
       total (st_loss_avg st) + sum_list (map (batch_loss model loss_fn) (take (Suc k) (remaining it)))"
    using tot avg1 it it1 by (simp add: ra_update_def)
  ultimately show ?case by blast
qed

lemma evaluate_loop_total:
  "k \<le> length (remaining it) \<Longrightarrow>
     \<exists>st' it'. evaluate_loop None model loss_fn metrics k it st = (Inr st', it')"
proof (induction k arbitrary: it st)
  case 0
  then show ?case by simp
next
  case (Suc k)
  then obtain b bs where it: "remaining it = b # bs" by (cases "remaining it") auto
  define it1 where "it1 = \<lparr>remaining = bs, next_calls = next_calls it + 1\<rparr>"
  from it have nx: "next_it it = (Inr b, it1)" by (simp add: next_it_def it1_def)
  obtain st1 where body: "loop_body None model loss_fn metrics b st = Inr st1"
    using loop_body_total by blast
  from Suc.prems it have "k \<le> length (remaining it1)" by (simp add: it1_def)
  from Suc.IH [OF this, of st1] nx body show ?case by simp
qed

lemma evaluate_Inr_D:
  assumes "evaluate ctx model loss_fn metrics it n = (Inr (mm, la), w, it')"
  shows "\<exists>st. evaluate_loop ctx model loss_fn metrics (nat n) it init_state = (Inr st, it') \<and>
           aggregate (st_summ st) = Inr mm \<and> ra_call (st_loss_avg st) = Inr la"
  using assms
  by (auto simp: evaluate_def Let_def split: prod.splits sum.splits)

lemma aggregate_Inr_E:
  assumes "aggregate summ = Inr mm"
  obtains m0 ms tp fp fn p r f1 where
    "metrics_mean_of summ = Inr m0" and "metrics_sum_of summ = Inr ms" and
    "map_of ms ''tp'' = Some tp" and "map_of ms ''fp'' = Some fp" and
    "map_of ms ''fn'' = Some fn" and "scores tp fp fn = Inr (p, r, f1)" and
    "\<And>k. map_of mm k =
              (if k \<in> {''tp'', ''fp'', ''fn''} then None
               else if k = ''recall'' then Some r
               else if k = ''precision'' then Some p
               else if k = ''f1score'' then Some f1
               else map_of m0 k)"
proof -
  from assms obtain m0 ms tp fp fn p r f1 where
    m0: "metrics_mean_of summ = Inr m0" and ms: "metrics_sum_of summ = Inr ms" and
    tp: "map_of ms ''tp'' = Some tp" and fp: "map_of ms ''fp'' = Some fp" and
    fn: "map_of ms ''fn'' = Some fn" and sc: "scores tp fp fn = Inr (p, r, f1)" and
    del: "dict_del_all [''tp'', ''fp'', ''fn'']
       (dict_set (dict_set (dict_set m0 ''f1score'' f1) ''precision'' p) ''recall'' r) = Inr mm"
    by (auto simp: aggregate_def ebind_eq_Inr dict_get_eq_Inr)
  have "\<And>k. map_of mm k =
              (if k \<in> {''tp'', ''fp'', ''fn''} then None
               else if k = ''recall'' then Some r
               else if k = ''precision'' then Some p
               else if k = ''f1score'' then Some f1
               else map_of m0 k)"
    using dict_del_all_lookup [OF del] by (simp add: map_of_dict_set)
  with m0 ms tp fp fn sc show ?thesis by (rule that)
qed

lemma evaluate_loop_init_summ:
  assumes "evaluate_loop ctx model loss_fn metrics k it init_state = (Inr st, it')"
  shows "map (batch_summary model loss_fn metrics) (take k (remaining it)) = map Inr (st_summ st)"
    and "length (st_summ st) = k"
    and "steps (st_loss_avg st) = k"
proof -
  note d = evaluate_loop_Inr_D [OF assms]
  from d have len: "k \<le> length (remaining it)" by simp
  from d show maps: "map (batch_summary model loss_fn metrics) (take k (remaining it)) = map Inr (st_summ st)"
    by (simp add: init_state_def)
  have "length (map Inr (st_summ st) :: (error + rat dict) list) = length (take k (remaining it))"
    by (simp only: maps [symmetric] length_map)
  with len show "length (st_summ st) = k" by simp
  from d show "steps (st_loss_avg st) = k" by (simp add: init_state_def RunningAverage_def)
qed

lemma evaluate_loop_summ_lookup:
  assumes lp: "evaluate_loop ctx model loss_fn metrics k it init_state = (Inr st, it')"
    and s: "s \<in> set (st_summ st)"
  shows "map_of s ''loss'' \<noteq> None"
    and "key \<noteq> ''loss'' \<Longrightarrow> map_of s key \<noteq> None \<longleftrightarrow> map_of metrics key \<noteq> None"
proof -
  from s have "Inr s \<in> set (map Inr (st_summ st))" by simp
  then have "Inr s \<in> set (map (batch_summary model loss_fn metrics) (take k (remaining it)))"
    by (simp only: evaluate_loop_init_summ(1) [OF lp])
  then obtain b where "batch_summary model loss_fn metrics b = Inr s"
    by auto
  then have b: "summary_batch metrics (model b) (slabels b) (batch_loss model loss_fn b) = Inr s"
    by (simp add: batch_summary_def)
  from summary_batch_lookup [OF b, of "''loss''"] show "map_of s ''loss'' \<noteq> None" by simp
  assume "key \<noteq> ''loss''"
  with summary_batch_lookup [OF b, of key]
  show "map_of s key \<noteq> None \<longleftrightarrow> map_of metrics key \<noteq> None" by simp
qed

text \<open>What \<^verbatim>\<open>evaluate\<close> reports are the scores of the summed counts.\<close>

lemma evaluate_reports_scores:
  assumes ev: "evaluate ctx model loss_fn metrics it n = (Inr (mm, la), w, it')"
    and lp: "evaluate_loop ctx model loss_fn metrics (nat n) it init_state = (Inr st, it1)"
    and tps: "column (st_summ st) ''tp'' = Inr tps"
    and fps: "column (st_summ st) ''fp'' = Inr fps"
    and fns: "column (st_summ st) ''fn'' = Inr fns"
  shows "\<exists>p r f1. scores (np_sum tps) (np_sum fps) (np_sum fns) = Inr (p, r, f1) \<and>
           map_of mm ''precision'' = Some p \<and> map_of mm ''recall'' = Some r \<and>
           map_of mm ''f1score'' = Some f1"
proof -
  from evaluate_Inr_D [OF ev] lp have agg: "aggregate (st_summ st) = Inr mm"
    by auto
  from agg show ?thesis
  proof (rule aggregate_Inr_E)
    fix m0 ms tp fp fn p r f1
    assume ms: "metrics_sum_of (st_summ st) = Inr ms"
      and tp: "map_of ms ''tp'' = Some tp" and fp: "map_of ms ''fp'' = Some fp"
      and fn: "map_of ms ''fn'' = Some fn" and sc: "scores tp fp fn = Inr (p, r, f1)"
      and mm: "\<And>k. map_of mm k =
              (if k \<in> {''tp'', ''fp'', ''fn''} then None
               else if k = ''recall'' then Some r
               else if k = ''precision'' then Some p
               else if k = ''f1score'' then Some f1
               else map_of m0 k)"
    from metrics_sum_of_lookup [OF ms tp] tps have tp': "tp = np_sum tps" by simp
    from metrics_sum_of_lookup [OF ms fp] fps have fp': "fp = np_sum fps" by simp
    from metrics_sum_of_lookup [OF ms fn] fns have fn': "fn = np_sum fns" by simp
    have "map_of mm ''precision'' = Some p" and "map_of mm ''recall'' = Some r"
      and "map_of mm ''f1score'' = Some f1"
      by (simp_all add: mm)
    with sc tp' fp' fn' show ?thesis by simp
  qed
qed

text \<open>
  C1. With a summed true-positive count of zero, precision, recall and F1 are all 0;
  with summed counts \<open>tp = fp = fn = 1\<close>, precision and recall are one half and so is
  F1. That holds of the arithmetic of lines 78 to 82 by itself, and of what a call of
  \<^verbatim>\<open>evaluate\<close> reports when the per-batch counts sum to these values.
\<close>

theorem scores_examples:
  "scores 0 fp fn = Inr (0, 0, 0) \<and> scores 1 1 1 = Inr (1 / 2, 1 / 2, 1 / 2) \<and>
   (evaluate ctx model loss_fn metrics it n = (Inr (mm, la), w, it') \<and>
    evaluate_loop ctx model loss_fn metrics (nat n) it init_state = (Inr st, it1) \<and>
    column (st_summ st) ''tp'' = Inr tps \<and> column (st_summ st) ''fp'' = Inr fps \<and>
    column (st_summ st) ''fn'' = Inr fns \<longrightarrow>
      (np_sum tps = 0 \<longrightarrow>
         map_of mm ''precision'' = Some 0 \<and> map_of mm ''recall'' = Some 0 \<and>
         map_of mm ''f1score'' = Some 0) \<and>
      (np_sum tps = 1 \<and> np_sum fps = 1 \<and> np_sum fns = 1 \<longrightarrow>
         map_of mm ''precision'' = Some (1 / 2) \<and> map_of mm ''recall'' = Some (1 / 2) \<and>
         map_of mm ''f1score'' = Some (1 / 2)))"
proof (intro conjI impI)
  show zero: "scores 0 fp fn = Inr (0, 0, 0)" for fp fn
    by (simp add: scores_def)
  show ones: "scores 1 1 1 = Inr (1 / 2, 1 / 2, 1 / 2)"
    by (simp add: scores_def np_div_def)
  assume run: "evaluate ctx model loss_fn metrics it n = (Inr (mm, la), w, it') \<and>
    evaluate_loop ctx model loss_fn metrics (nat n) it init_state = (Inr st, it1) \<and>
    column (st_summ st) ''tp'' = Inr tps \<and> column (st_summ st) ''fp'' = Inr fps \<and>
    column (st_summ st) ''fn'' = Inr fns"
  then obtain p r f1 where
    sc: "scores (np_sum tps) (np_sum fps) (np_sum fns) = Inr (p, r, f1)" and
    p: "map_of mm ''precision'' = Some p" and r: "map_of mm ''recall'' = Some r" and
    f1: "map_of mm ''f1score'' = Some f1"
    using evaluate_reports_scores [of ctx model loss_fn metrics it n mm la w it' st it1 tps fps fns]
    by blast
  {
    assume "np_sum tps = 0"
    with sc zero have "p = 0 \<and> r = 0 \<and> f1 = 0" by simp
    with p r f1 show "map_of mm ''precision'' = Some 0" "map_of mm ''recall'' = Some 0"
      "map_of mm ''f1score'' = Some 0" by simp_all
  }
  {
    assume "np_sum tps = 1 \<and> np_sum fps = 1 \<and> np_sum fns = 1"
    with sc ones have "p = 1 / 2 \<and> r = 1 / 2 \<and> f1 = 1 / 2" by simp
    with p r f1 show "map_of mm ''precision'' = Some (1 / 2)" "map_of mm ''recall'' = Some (1 / 2)"
      "map_of mm ''f1score'' = Some (1 / 2)" by simp_all
  }
qed

text \<open>
  One batch without a true positive, and one batch with \<open>tp = fp = fn = 1\<close>.
\<close>

theorem scores_examples_witness:
  "np_sum [0] = 0 \<and>
   map_of no_hit_result ''precision'' = Some 0 \<and> map_of no_hit_result ''recall'' = Some 0 \<and>
   map_of no_hit_result ''f1score'' = Some 0 \<and>
   np_sum [1] = 1 \<and>
   map_of example_result ''precision'' = Some (1 / 2) \<and>
   map_of example_result ''recall'' = Some (1 / 2) \<and>
   map_of example_result ''f1score'' = Some (1 / 2)"
proof -
  have s0: "np_sum [0] = 0" and s1: "np_sum [1] = 1"
    by (simp_all add: np_sum_def)
  from scores_examples [of 1 1 None example_model example_loss_fn no_hit_metrics example_iterator 1
      no_hit_result "1 / 4" "[]" one_left_iterator "one_batch_state no_hit_summary"
      one_left_iterator "[0]" "[1]" "[1]"]
    one_batch_evaluate(2) one_batch_evaluate_loop(2) one_batch_columns(4-6) s0
  have "map_of no_hit_result ''precision'' = Some 0 \<and> map_of no_hit_result ''recall'' = Some 0 \<and>
   map_of no_hit_result ''f1score'' = Some 0"
    by simp
  moreover
  from scores_examples [of 1 1 None example_model example_loss_fn example_metrics example_iterator 1
      example_result "1 / 4" "[]" one_left_iterator "one_batch_state example_summary"
      one_left_iterator "[1]" "[1]" "[1]"]
    one_batch_evaluate(1) one_batch_evaluate_loop(1) one_batch_columns(1-3) s1
  have "map_of example_result ''precision'' = Some (1 / 2) \<and>
   map_of example_result ''recall'' = Some (1 / 2) \<and>
   map_of example_result ''f1score'' = Some (1 / 2)"
    by simp
  ultimately show ?thesis using s0 s1 by simp
qed



subsection \<open>Which errors can arise\<close>

lemma collect_Inl_D: "collect xs = Inl e \<Longrightarrow> Inl e \<in> set xs"
  by (induction xs) (auto split: sum.splits)

lemma dict_comp_Inl_D: "dict_comp f ks d = Inl e \<Longrightarrow> \<exists>k\<in>set ks. f k = Inl e"
  by (induction ks arbitrary: d) (auto split: sum.splits)

lemma dict_get_Inl_D: "dict_get d k = Inl e \<Longrightarrow> e = KeyError"
  by (simp add: dict_get_def split: option.splits)

lemma column_Inl_D:
  assumes "column summ k = Inl e"
  shows "e = KeyError"
proof -
  from assms have "Inl e \<in> set (map (\<lambda>x. dict_get x k) summ)"
    unfolding column_def by (rule collect_Inl_D)
  then obtain x :: "rat dict" where "Inl e = dict_get x k" by auto
  then have "dict_get x k = Inl e" by simp
  then show ?thesis by (rule dict_get_Inl_D)
qed

lemma np_div_Inl_D: "np_div a b = Inl e \<Longrightarrow> e = DivideByZero \<and> b = 0"
  by (simp add: np_div_def split: if_splits)

lemma column_mean_Inl_D:
  assumes "ebind (column summ k) np_mean = Inl e" and "summ \<noteq> []"
  shows "e = KeyError"
proof (cases "column summ k")
  case (Inl e')
  with assms(1) column_Inl_D [OF Inl] show ?thesis by simp
next
  case (Inr vs)
  with assms(1) have "np_mean vs = Inl e" by simp
  then have "length vs = 0"
    by (auto simp: np_mean_def dest: np_div_Inl_D)
  with column_length [OF Inr] assms(2) show ?thesis by simp
qed

lemma column_sum_Inl_D:
  assumes "ebind (column summ k) (\<lambda>vs. Inr (np_sum vs)) = Inl e"
  shows "e = KeyError"
  using assms column_Inl_D [of summ k] by (cases "column summ k") simp_all

lemma metrics_mean_of_Inl_D:
  "metrics_mean_of summ = Inl e \<Longrightarrow> e = IndexError \<or> e = KeyError"
proof (cases summ)
  case Nil
  assume "metrics_mean_of summ = Inl e"
  with Nil show ?thesis by (simp add: metrics_mean_of_def)
next
  case (Cons s0 rest)
  assume "metrics_mean_of summ = Inl e"
  with Cons have "dict_comp (\<lambda>metric. ebind (column summ metric) np_mean) (dict_keys s0) [] = Inl e"
    by (simp add: metrics_mean_of_def)
  from dict_comp_Inl_D [OF this] obtain k where "ebind (column summ k) np_mean = Inl e"
    by auto
  from column_mean_Inl_D [OF this] Cons show ?thesis by simp
qed

lemma metrics_sum_of_Inl_D:
  "metrics_sum_of summ = Inl e \<Longrightarrow> e = IndexError \<or> e = KeyError"
proof (cases summ)
  case Nil
  assume "metrics_sum_of summ = Inl e"
  with Nil show ?thesis by (simp add: metrics_sum_of_def)
next
  case (Cons s0 rest)
  assume "metrics_sum_of summ = Inl e"
  with Cons have "dict_comp (\<lambda>metric. ebind (column summ metric) (\<lambda>vs. Inr (np_sum vs)))
      (dict_keys s0) [] = Inl e"
    by (simp add: metrics_sum_of_def)
  from dict_comp_Inl_D [OF this] obtain k where
    "ebind (column summ k) (\<lambda>vs. Inr (np_sum vs)) = Inl e"
    by auto
  from column_sum_Inl_D [OF this] show ?thesis by simp
qed

lemma dict_del_all_Inl_D: "dict_del_all ks d = Inl e \<Longrightarrow> e = KeyError"
proof (induction ks arbitrary: d)
  case Nil
  then show ?case by simp
next
  case (Cons k ks)
  show ?case
  proof (cases "dict_del d k")
    case (Inl e')
    with Cons.prems show ?thesis
      by (simp add: dict_del_def split: option.splits)
  next
    case (Inr d1)
    with Cons.prems have "dict_del_all ks d1 = Inl e" by simp
    then show ?thesis by (rule Cons.IH)
  qed
qed

lemma scores_Inl_D:
  assumes "scores tp fp fn = Inl e"
  shows "e = DivideByZero \<and> tp \<noteq> 0 \<and>
         (tp + fp = 0 \<or> tp + fn = 0 \<or> tp / (tp + fp) + tp / (tp + fn) = 0)"
proof -
  from assms have tp: "tp \<noteq> 0"
    by (auto simp: scores_def split: if_splits)
  show ?thesis
  proof (cases "tp + fp = 0 \<or> tp + fn = 0 \<or> tp / (tp + fp) + tp / (tp + fn) = 0")
    case True
    have "e = DivideByZero"
      using assms tp by (auto simp: scores_def np_div_def split: if_splits)
    with tp True show ?thesis by simp
  next
    case False
    with tp have "scores tp fp fn =
        Inr (tp / (tp + fp), tp / (tp + fn),
             2 * (tp / (tp + fp) * (tp / (tp + fn))) / (tp / (tp + fp) + tp / (tp + fn)))"
      by (simp add: scores_def np_div_def)
    with assms show ?thesis by simp
  qed
qed

lemma aggregate_Inl_D:
  assumes "aggregate summ = Inl e"
  shows "e = IndexError \<or> e = KeyError \<or>
         (e = DivideByZero \<and>
          (\<exists>ms tp fp fn. metrics_sum_of summ = Inr ms \<and> map_of ms ''tp'' = Some tp \<and>
             map_of ms ''fp'' = Some fp \<and> map_of ms ''fn'' = Some fn \<and>
             scores tp fp fn = Inl DivideByZero))"
proof (cases "metrics_mean_of summ")
  case (Inl e')
  with assms have "e = e'" by (simp add: aggregate_def)
  with metrics_mean_of_Inl_D [OF Inl] show ?thesis by blast
next
  case m0: (Inr m0)
  show ?thesis
  proof (cases "metrics_sum_of summ")
    case (Inl e')
    with assms m0 have "e = e'" by (simp add: aggregate_def)
    with metrics_sum_of_Inl_D [OF Inl] show ?thesis by blast
  next
    case ms: (Inr ms)
    show ?thesis
    proof (cases "map_of ms ''tp''")
      case None
      with assms m0 ms show ?thesis by (simp add: aggregate_def dict_get_def)
    next
      case tp: (Some tp)
      show ?thesis
      proof (cases "map_of ms ''fp''")
        case None
        with assms m0 ms tp show ?thesis by (simp add: aggregate_def dict_get_def)
      next
        case fp: (Some fp)
        show ?thesis
        proof (cases "map_of ms ''fn''")
          case None
          with assms m0 ms tp fp show ?thesis by (simp add: aggregate_def dict_get_def)
        next
          case fn: (Some fn)
          show ?thesis
          proof (cases "scores tp fp fn")
            case (Inl e')
            with assms m0 ms tp fp fn have "e = e'" by (simp add: aggregate_def dict_get_def)
            with scores_Inl_D [OF Inl] Inl ms tp fp fn show ?thesis by blast
          next
            case (Inr triple)
            obtain p r f1 where "triple = (p, r, f1)" by (cases triple) auto
            with assms m0 ms tp fp fn Inr have
              "dict_del_all [''tp'', ''fp'', ''fn'']
                 (dict_set (dict_set (dict_set m0 ''f1score'' f1) ''precision'' p) ''recall'' r) = Inl e"
              by (simp add: aggregate_def dict_get_def)
            from dict_del_all_Inl_D [OF this] show ?thesis by simp
          qed
        qed
      qed
    qed
  qed
qed

lemma tagged_sent_Inl_D: "tagged_sent t x y z = Inl e \<Longrightarrow> e = IndexError \<or> e = KeyError"
  by (auto simp: tagged_sent_def Let_def split: list.splits option.splits)

lemma tag_batch_Inl_D:
  assumes "tag_batch t b out = Inl e"
  shows "e = IndexError \<or> e = KeyError"
proof -
  from assms have "Inl e \<in> set (map (\<lambda>(x, y, z). tagged_sent t x y z)
       (zip (sentences b) (zip (map (map (\<lambda>v. v > 1 / 2)) out) (slabels b))))"
    unfolding tag_batch_def by (rule collect_Inl_D)
  then obtain x y z where "Inl e = tagged_sent t x y z" by auto
  then have "tagged_sent t x y z = Inl e" by simp
  then show ?thesis by (rule tagged_sent_Inl_D)
qed

lemma loop_body_Inl_D:
  assumes "loop_body ctx model loss_fn metrics b st = Inl e"
  shows "e = IndexError \<or> e = KeyError"
proof -
  obtain s where s: "summary_batch metrics (model b) (slabels b) (loss_fn (model b) (slabels b)) = Inr s"
    using summary_batch_total by blast
  show ?thesis
  proof (cases ctx)
    case None
    with assms s show ?thesis by (simp add: loop_body_def Let_def)
  next
    case (Some g)
    with assms s have "\<exists>e'. tag_batch (g_sid2tag g) b (model b) = Inl e' \<and> e = e'"
      by (cases "tag_batch (g_sid2tag g) b (model b)") (simp_all add: loop_body_def Let_def)
    then show ?thesis by (auto dest: tag_batch_Inl_D)
  qed
qed

lemma next_it_Inl_D: "next_it it = (Inl e, it') \<Longrightarrow> e = StopIteration"
  by (auto simp: next_it_def split: list.splits)

lemma evaluate_loop_Inl_D:
  "evaluate_loop ctx model loss_fn metrics k it st = (Inl e, it') \<Longrightarrow>
     e = StopIteration \<or> e = IndexError \<or> e = KeyError"
proof (induction k arbitrary: it st)
  case 0
  then show ?case by simp
next
  case (Suc k)
  obtain r it1 where nx: "next_it it = (r, it1)" by (cases "next_it it") auto
  show ?case
  proof (cases r)
    case (Inl e')
    with Suc.prems nx have "e = e'" by simp
    with next_it_Inl_D nx Inl show ?thesis by blast
  next
    case b: (Inr b)
    show ?thesis
    proof (cases "loop_body ctx model loss_fn metrics b st")
      case (Inl e')
      with Suc.prems nx b have "e = e'" by simp
      with loop_body_Inl_D [OF Inl] show ?thesis by simp
    next
      case (Inr st1)
      with Suc.prems nx b have "evaluate_loop ctx model loss_fn metrics k it1 st1 = (Inl e, it')"
        by simp
      then show ?thesis by (rule Suc.IH)
    qed
  qed
qed

text \<open>The three ways in which \<^verbatim>\<open>evaluate\<close> ends.\<close>

lemma evaluate_cases:
  obtains
    (loop_error) e it' where
      "evaluate_loop ctx model loss_fn metrics (nat n) it init_state = (Inl e, it')"
      "evaluate ctx model loss_fn metrics it n = (Inl e, [], it')"
  | (aggregate_error) st it' e where
      "evaluate_loop ctx model loss_fn metrics (nat n) it init_state = (Inr st, it')"
      "aggregate (st_summ st) = Inl e"
      "evaluate ctx model loss_fn metrics it n = (Inl e, [], it')"
  | (average_error) st it' mm e where
      "evaluate_loop ctx model loss_fn metrics (nat n) it init_state = (Inr st, it')"
      "aggregate (st_summ st) = Inr mm" "ra_call (st_loss_avg st) = Inl e"
      "fst (evaluate ctx model loss_fn metrics it n) = Inl e"
  | (returns) st it' mm la where
      "evaluate_loop ctx model loss_fn metrics (nat n) it init_state = (Inr st, it')"
      "aggregate (st_summ st) = Inr mm" "ra_call (st_loss_avg st) = Inr la"
      "fst (evaluate ctx model loss_fn metrics it n) = Inr (mm, la)"
proof -
  obtain r it' where lp: "evaluate_loop ctx model loss_fn metrics (nat n) it init_state = (r, it')"
    by (cases "evaluate_loop ctx model loss_fn metrics (nat n) it init_state") auto
  show ?thesis
  proof (cases r)
    case (Inl e)
    with lp show ?thesis by (intro loop_error [of e it']) (simp_all add: evaluate_def)
  next
    case st: (Inr st)
    show ?thesis
    proof (cases "aggregate (st_summ st)")
      case (Inl e)
      with lp st show ?thesis
        by (intro aggregate_error [of st it' e]) (simp_all add: evaluate_def)
    next
      case mm: (Inr mm)
      show ?thesis
      proof (cases "ra_call (st_loss_avg st)")
        case (Inl e)
        with lp st mm show ?thesis
          by (intro average_error [of st it' mm e]) (simp_all add: evaluate_def Let_def)
      next
        case (Inr la)
        with lp st mm show ?thesis
          by (intro returns [of st it' mm la]) (simp_all add: evaluate_def Let_def)
      qed
    qed
  qed
qed

lemma aggregate_Inr_nonempty: "aggregate summ = Inr mm \<Longrightarrow> summ \<noteq> []"
  by (auto simp: aggregate_def metrics_mean_of_def)

lemma ra_call_after_loop:
  assumes lp: "evaluate_loop ctx model loss_fn metrics k it init_state = (Inr st, it')"
    and ne: "st_summ st \<noteq> []"
  shows "\<exists>la. ra_call (st_loss_avg st) = Inr la"
proof -
  from evaluate_loop_init_summ(2,3) [OF lp] ne have "steps (st_loss_avg st) \<noteq> 0"
    by auto
  then show ?thesis by (simp add: ra_call_def np_div_def)
qed

lemma evaluate_errors:
  assumes "fst (evaluate ctx model loss_fn metrics it n) = Inl e"
  shows "e = StopIteration \<or> e = IndexError \<or> e = KeyError \<or> e = DivideByZero"
proof (cases rule: evaluate_cases [where ctx = ctx and model = model and loss_fn = loss_fn
      and metrics = metrics and n = n and it = it])
  case (loop_error e' it')
  with assms have "e = e'" by simp
  with evaluate_loop_Inl_D [OF loop_error(1)] show ?thesis by blast
next
  case (aggregate_error st it' e')
  with assms have "e = e'" by simp
  with aggregate_Inl_D [OF aggregate_error(2)] show ?thesis by blast
next
  case (average_error st it' mm e')
  from ra_call_after_loop [OF average_error(1) aggregate_Inr_nonempty [OF average_error(2)]]
    average_error(3)
  show ?thesis by simp
next
  case (returns st it' mm la)
  with assms show ?thesis by simp
qed

subsection \<open>Counts, iterations and keys\<close>

lemma sum_list_nonneg_rat: "(\<And>v. v \<in> set vs \<Longrightarrow> (0::rat) \<le> v) \<Longrightarrow> 0 \<le> sum_list vs"
  by (induction vs) auto

lemma column_values:
  assumes "column summ k = Inr vs" and "v \<in> set vs"
  shows "\<exists>s\<in>set summ. map_of s k = Some v"
proof -
  from assms(1) have eq: "map (\<lambda>x. map_of x k) summ = map Some vs"
    by (simp add: column_eq_Inr)
  from assms(2) have "Some v \<in> set (map Some vs)" by simp
  then have "Some v \<in> set (map (\<lambda>x. map_of x k) summ)" by (simp only: eq)
  then show ?thesis by auto
qed

lemma loop_summary_origin:
  assumes lp: "evaluate_loop ctx model loss_fn metrics k it init_state = (Inr st, it')"
    and s: "s \<in> set (st_summ st)"
  shows "\<exists>b\<in>set (remaining it). batch_summary model loss_fn metrics b = Inr s"
proof -
  from s have "Inr s \<in> set (map Inr (st_summ st))" by simp
  then have "Inr s \<in> set (map (batch_summary model loss_fn metrics) (take k (remaining it)))"
    by (simp only: evaluate_loop_init_summ(1) [OF lp])
  then obtain b where b: "b \<in> set (take k (remaining it))"
    and bs: "batch_summary model loss_fn metrics b = Inr s"
    by auto
  from b have "b \<in> set (remaining it)" by (rule in_set_takeD)
  with bs show ?thesis by blast
qed






text \<open>
  C8. \<^verbatim>\<open>evaluate\<close> is partial in \<^verbatim>\<open>num_steps\<close>. With \<^verbatim>\<open>num_steps\<close> zero (or
  negative) it raises \<^verbatim>\<open>IndexError\<close>, at \<^verbatim>\<open>summ[0]\<close> on the empty list, without
  touching the iterator; so a call that returns has \<^verbatim>\<open>num_steps\<close> at least 1; and
  with \<^verbatim>\<open>num_steps\<close> at least 1, a loop that ran to its end leaves a non-empty
  \<^verbatim>\<open>summ\<close>, on which \<^verbatim>\<open>summ[0]\<close> does not raise.
\<close>

theorem evaluate_needs_a_batch:
  "(n \<le> 0 \<longrightarrow> evaluate ctx model loss_fn metrics it n = (Inl IndexError, [], it)) \<and>
   (fst (evaluate ctx model loss_fn metrics it n) = Inr r \<longrightarrow> 1 \<le> n) \<and>
   (1 \<le> n \<and> evaluate_loop ctx model loss_fn metrics (nat n) it init_state = (Inr st, it') \<longrightarrow>
      st_summ st \<noteq> [] \<and> metrics_mean_of (st_summ st) \<noteq> Inl IndexError)"
proof (intro conjI impI)
  assume "n \<le> 0"
  then have "nat n = 0" by simp
  then show "evaluate ctx model loss_fn metrics it n = (Inl IndexError, [], it)"
    by (simp add: evaluate_def init_state_def aggregate_def metrics_mean_of_def)
next
  assume r: "fst (evaluate ctx model loss_fn metrics it n) = Inr r"
  show "1 \<le> n"
  proof (rule ccontr)
    assume "\<not> 1 \<le> n"
    then have "nat n = 0" by simp
    then have "evaluate ctx model loss_fn metrics it n = (Inl IndexError, [], it)"
      by (simp add: evaluate_def init_state_def aggregate_def metrics_mean_of_def)
    with r show False by simp
  qed
next
  assume a: "1 \<le> n \<and> evaluate_loop ctx model loss_fn metrics (nat n) it init_state = (Inr st, it')"
  then have lp: "evaluate_loop ctx model loss_fn metrics (nat n) it init_state = (Inr st, it')"
    by simp
  have "length (st_summ st) = nat n" by (rule evaluate_loop_init_summ(2) [OF lp])
  with a show ne: "st_summ st \<noteq> []" by auto
  then show "metrics_mean_of (st_summ st) \<noteq> Inl IndexError"
    by (cases "st_summ st") (auto simp: metrics_mean_of_def dest: dict_comp_Inl_D column_mean_Inl_D)
qed

text \<open>
  The example iterator with zero steps and with two.
\<close>

theorem evaluate_needs_a_batch_witness:
  "evaluate None example_model example_loss_fn example_metrics example_iterator 0 =
     (Inl IndexError, [], example_iterator) \<and>
   st_summ example_final_state \<noteq> [] \<and>
   metrics_mean_of (st_summ example_final_state) \<noteq> Inl IndexError"
proof -
  from evaluate_needs_a_batch [of 0 None example_model example_loss_fn example_metrics
      example_iterator]
  have "evaluate None example_model example_loss_fn example_metrics example_iterator 0 =
     (Inl IndexError, [], example_iterator)"
    by simp
  moreover from evaluate_needs_a_batch [of 2 None example_model example_loss_fn example_metrics
      example_iterator "(example_result, 1 / 4)" example_final_state exhausted_iterator]
    example_evaluate example_evaluate_loop
  have "st_summ example_final_state \<noteq> [] \<and>
        metrics_mean_of (st_summ example_final_state) \<noteq> Inl IndexError"
    by simp
  ultimately show ?thesis by simp
qed

lemma loop_first_summary_keys:
  assumes lp: "evaluate_loop ctx model loss_fn metrics k it init_state = (Inr st, it')"
    and ne: "st_summ st \<noteq> []"
  shows "map_of (hd (st_summ st)) ''loss'' \<noteq> None"
    and "key \<in> set (dict_keys metrics) \<Longrightarrow> map_of (hd (st_summ st)) key \<noteq> None"
proof -
  from ne have hd: "hd (st_summ st) \<in> set (st_summ st)" by simp
  from evaluate_loop_summ_lookup(1) [OF lp hd] show l: "map_of (hd (st_summ st)) ''loss'' \<noteq> None" .
  assume "key \<in> set (dict_keys metrics)"
  then have m: "map_of metrics key \<noteq> None" by (simp add: in_dict_keys)
  show "map_of (hd (st_summ st)) key \<noteq> None"
  proof (cases "key = ''loss''")
    case True
    with l show ?thesis by simp
  next
    case False
    from evaluate_loop_summ_lookup(2) [OF lp hd False] m show ?thesis by simp
  qed
qed




text \<open>
  C9. The dictionary returned by a successful call of \<^verbatim>\<open>evaluate\<close> has none of the
  keys \<^verbatim>\<open>tp\<close>, \<^verbatim>\<open>fp\<close>, \<^verbatim>\<open>fn\<close> and has the keys \<^verbatim>\<open>f1score\<close>,
  \<^verbatim>\<open>precision\<close>, \<^verbatim>\<open>recall\<close> and \<^verbatim>\<open>loss\<close>.
\<close>

theorem evaluate_result_keys:
  assumes ev: "evaluate ctx model loss_fn metrics it n = (Inr (mm, la), w, it')"
  shows "''tp'' \<notin> set (dict_keys mm) \<and> ''fp'' \<notin> set (dict_keys mm) \<and>
         ''fn'' \<notin> set (dict_keys mm) \<and> ''f1score'' \<in> set (dict_keys mm) \<and>
         ''precision'' \<in> set (dict_keys mm) \<and> ''recall'' \<in> set (dict_keys mm) \<and>
         ''loss'' \<in> set (dict_keys mm)"
proof -
  from evaluate_Inr_D [OF ev] obtain st where
    lp: "evaluate_loop ctx model loss_fn metrics (nat n) it init_state = (Inr st, it')" and
    agg: "aggregate (st_summ st) = Inr mm"
    by auto
  from agg show ?thesis
  proof (rule aggregate_Inr_E)
    fix m0 ms tp fp fn p r f1
    assume m0: "metrics_mean_of (st_summ st) = Inr m0"
      and mm: "\<And>k. map_of mm k =
              (if k \<in> {''tp'', ''fp'', ''fn''} then None
               else if k = ''recall'' then Some r
               else if k = ''precision'' then Some p
               else if k = ''f1score'' then Some f1
               else map_of m0 k)"
    from metrics_mean_of_lookup(1) [OF m0] have ne: "st_summ st \<noteq> []" .
    from loop_first_summary_keys(1) [OF lp ne] have "map_of (hd (st_summ st)) ''loss'' \<noteq> None" .
    from metrics_mean_of_lookup(3) [OF m0 this] have "map_of m0 ''loss'' \<noteq> None"
      by auto
    then have loss: "map_of mm ''loss'' \<noteq> None" by (simp add: mm)
    have "map_of mm ''tp'' = None" and "map_of mm ''fp'' = None" and "map_of mm ''fn'' = None"
      and "map_of mm ''f1score'' \<noteq> None" and "map_of mm ''precision'' \<noteq> None"
      and "map_of mm ''recall'' \<noteq> None"
      by (simp_all add: mm)
    with loss show ?thesis by (simp add: in_dict_keys)
  qed
qed

text \<open>
  The example run.
\<close>

theorem evaluate_result_keys_witness:
  "''tp'' \<notin> set (dict_keys example_result) \<and> ''loss'' \<in> set (dict_keys example_result) \<and>
   ''f1score'' \<in> set (dict_keys example_result)"
  using evaluate_result_keys [OF example_evaluate] by simp

subsection \<open>When \<^verbatim>\<open>evaluate\<close> returns\<close>

lemma column_total:
  assumes "\<And>s. s \<in> set summ \<Longrightarrow> map_of s k \<noteq> None"
  shows "\<exists>vs. column summ k = Inr vs"
proof -
  have "map (\<lambda>x. map_of x k) summ = map Some (map (\<lambda>x. the (map_of x k)) summ)"
    using assms by (induction summ) auto
  then have "column summ k = Inr (map (\<lambda>x. the (map_of x k)) summ)"
    by (simp only: column_eq_Inr)
  then show ?thesis by blast
qed

lemma scores_total:
  assumes "0 \<le> tp" "0 \<le> fp" "0 \<le> fn"
  shows "\<exists>p r f1. scores tp fp fn = Inr (p, r, f1)"
proof (cases "tp = 0")
  case True
  then show ?thesis by (simp add: scores_def)
next
  case False
  from scores_counts [OF False assms] show ?thesis
    by (simp add: scores_def np_div_def False)
qed

lemma dict_del_three:
  assumes "map_of d ''tp'' \<noteq> None" "map_of d ''fp'' \<noteq> None" "map_of d ''fn'' \<noteq> None"
  shows "\<exists>d'. dict_del_all [''tp'', ''fp'', ''fn''] d = Inr d'"
  using assms by (auto simp: dict_del_def delete_conv' split: option.splits)

lemma aggregate_total:
  assumes ne: "summ \<noteq> []"
    and uniform: "\<And>s k. s \<in> set summ \<Longrightarrow> map_of (hd summ) k \<noteq> None \<Longrightarrow> map_of s k \<noteq> None"
    and keys: "map_of (hd summ) ''tp'' \<noteq> None" "map_of (hd summ) ''fp'' \<noteq> None"
      "map_of (hd summ) ''fn'' \<noteq> None"
    and nonneg: "\<And>s v. s \<in> set summ \<Longrightarrow>
      map_of s ''tp'' = Some v \<or> map_of s ''fp'' = Some v \<or> map_of s ''fn'' = Some v \<Longrightarrow> 0 \<le> v"
  shows "\<exists>mm. aggregate summ = Inr mm"
proof -
  from ne obtain s0 rest where summ: "summ = s0 # rest" by (cases summ) auto
  have col: "\<exists>vs. column summ k = Inr vs" if "k \<in> set (dict_keys s0)" for k
  proof (rule column_total)
    fix s assume "s \<in> set summ"
    moreover from that summ have "map_of (hd summ) k \<noteq> None" by (simp add: in_dict_keys)
    ultimately show "map_of s k \<noteq> None" by (rule uniform)
  qed
  have "\<exists>m0. dict_comp (\<lambda>metric. ebind (column summ metric) np_mean) (dict_keys s0) [] = Inr m0"
  proof (rule dict_comp_total)
    fix k assume "k \<in> set (dict_keys s0)"
    from col [OF this] obtain vs where vs: "column summ k = Inr vs" by auto
    from column_length [OF vs] ne have "vs \<noteq> []" by auto
    with vs show "\<exists>v. ebind (column summ k) np_mean = Inr v"
      by (simp add: np_mean_eq_Inr)
  qed
  then obtain m0 where
    dc0: "dict_comp (\<lambda>metric. ebind (column summ metric) np_mean) (dict_keys s0) [] = Inr m0"
    by auto
  with summ have m0: "metrics_mean_of summ = Inr m0" by (simp add: metrics_mean_of_def)
  have "\<exists>ms. dict_comp (\<lambda>metric. ebind (column summ metric) (\<lambda>vs. Inr (np_sum vs)))
      (dict_keys s0) [] = Inr ms"
  proof (rule dict_comp_total)
    fix k assume "k \<in> set (dict_keys s0)"
    from col [OF this] show "\<exists>v. ebind (column summ k) (\<lambda>vs. Inr (np_sum vs)) = Inr v"
      by auto
  qed
  then obtain ms where
    dcs: "dict_comp (\<lambda>metric. ebind (column summ metric) (\<lambda>vs. Inr (np_sum vs)))
      (dict_keys s0) [] = Inr ms"
    by auto
  with summ have ms: "metrics_sum_of summ = Inr ms" by (simp add: metrics_sum_of_def)
  have count: "\<exists>vs. map_of ms k = Some (np_sum vs) \<and> 0 \<le> np_sum vs \<and> map_of m0 k \<noteq> None"
    if k: "map_of (hd summ) k \<noteq> None" and kk: "k = ''tp'' \<or> k = ''fp'' \<or> k = ''fn''" for k
  proof -
    from k summ have ks: "k \<in> set (dict_keys s0)" by (simp add: in_dict_keys)
    from col [OF ks] obtain vs where vs: "column summ k = Inr vs" by auto
    from dict_comp_lookup [OF dcs, of k] ks vs have "map_of ms k = Some (np_sum vs)" by simp
    moreover have "0 \<le> np_sum vs" unfolding np_sum_def
    proof (rule sum_list_nonneg_rat)
      fix v assume "v \<in> set vs"
      from column_values [OF vs this] obtain s where "s \<in> set summ" and "map_of s k = Some v"
        by auto
      with nonneg [of s v] kk show "0 \<le> v" by auto
    qed
    moreover from dict_comp_defined [OF dc0 ks] dict_comp_lookup [OF dc0, of k] ks
    have "map_of m0 k \<noteq> None" by auto
    ultimately show ?thesis by blast
  qed
  from count [OF keys(1)] obtain tps where
    tp: "map_of ms ''tp'' = Some (np_sum tps)" and tp0: "0 \<le> np_sum tps" and
    mtp: "map_of m0 ''tp'' \<noteq> None" by auto
  from count [OF keys(2)] obtain fps where
    fp: "map_of ms ''fp'' = Some (np_sum fps)" and fp0: "0 \<le> np_sum fps" and
    mfp: "map_of m0 ''fp'' \<noteq> None" by auto
  from count [OF keys(3)] obtain fns where
    fn: "map_of ms ''fn'' = Some (np_sum fns)" and fn0: "0 \<le> np_sum fns" and
    mfn: "map_of m0 ''fn'' \<noteq> None" by auto
  from scores_total [OF tp0 fp0 fn0] obtain p r f1 where
    sc: "scores (np_sum tps) (np_sum fps) (np_sum fns) = Inr (p, r, f1)" by auto
  define d where "d = dict_set (dict_set (dict_set m0 ''f1score'' f1) ''precision'' p) ''recall'' r"
  from mtp mfp mfn have "map_of d ''tp'' \<noteq> None" "map_of d ''fp'' \<noteq> None" "map_of d ''fn'' \<noteq> None"
    by (simp_all add: d_def map_of_dict_set)
  from dict_del_three [OF this] obtain mm where "dict_del_all [''tp'', ''fp'', ''fn''] d = Inr mm"
    by auto
  with m0 ms tp fp fn sc have "aggregate summ = Inr mm"
    by (simp add: aggregate_def dict_get_def d_def)
  then show ?thesis by blast
qed

text \<open>
  When the file is imported: with at least one step, an iterator that holds enough
  batches, metrics that include the three counts, and counts that are not negative,
  \<^verbatim>\<open>evaluate\<close> returns.
\<close>

lemma evaluate_returns:
  assumes n: "1 \<le> n" and len: "nat n \<le> length (remaining it)"
    and keys: "map_of metrics ''tp'' \<noteq> None" "map_of metrics ''fp'' \<noteq> None"
      "map_of metrics ''fn'' \<noteq> None"
    and nonneg: "\<And>b f. b \<in> set (remaining it) \<Longrightarrow>
      map_of metrics ''tp'' = Some f \<or> map_of metrics ''fp'' = Some f \<or>
      map_of metrics ''fn'' = Some f \<Longrightarrow> 0 \<le> f (model b) (slabels b)"
  shows "\<exists>mm la it'. evaluate None model loss_fn metrics it n = (Inr (mm, la), [], it')"
proof -
  from evaluate_loop_total [OF len] obtain st it' where
    lp: "evaluate_loop None model loss_fn metrics (nat n) it init_state = (Inr st, it')"
    by blast
  from evaluate_loop_init_summ(2) [OF lp] n have ne: "st_summ st \<noteq> []" by auto
  then have hd: "hd (st_summ st) \<in> set (st_summ st)" by simp
  have present: "map_of s k \<noteq> None \<longleftrightarrow> k = ''loss'' \<or> map_of metrics k \<noteq> None"
    if "s \<in> set (st_summ st)" for s k
    using evaluate_loop_summ_lookup(1) [OF lp that] evaluate_loop_summ_lookup(2) [OF lp that, of k]
    by (cases "k = ''loss''") auto
  have "\<exists>mm. aggregate (st_summ st) = Inr mm"
  proof (rule aggregate_total [OF ne])
    fix s k assume "s \<in> set (st_summ st)" and "map_of (hd (st_summ st)) k \<noteq> None"
    with present [of s k] present [OF hd, of k] show "map_of s k \<noteq> None" by simp
  next
    from keys present [OF hd] show "map_of (hd (st_summ st)) ''tp'' \<noteq> None"
      and "map_of (hd (st_summ st)) ''fp'' \<noteq> None" and "map_of (hd (st_summ st)) ''fn'' \<noteq> None"
      by simp_all
  next
    fix s v assume s: "s \<in> set (st_summ st)"
      and v: "map_of s ''tp'' = Some v \<or> map_of s ''fp'' = Some v \<or> map_of s ''fn'' = Some v"
    from loop_summary_origin [OF lp s] obtain b where
      b: "b \<in> set (remaining it)" and bs: "batch_summary model loss_fn metrics b = Inr s"
      by auto
    from bs have sb: "summary_batch metrics (model b) (slabels b) (batch_loss model loss_fn b) = Inr s"
      by (simp add: batch_summary_def)
    from v summary_batch_lookup [OF sb, of "''tp''"] summary_batch_lookup [OF sb, of "''fp''"]
      summary_batch_lookup [OF sb, of "''fn''"]
    have "\<exists>f. (map_of metrics ''tp'' = Some f \<or> map_of metrics ''fp'' = Some f \<or>
        map_of metrics ''fn'' = Some f) \<and> v = f (model b) (slabels b)"
      by auto
    with nonneg [OF b] show "0 \<le> v" by auto
  qed
  then obtain mm where agg: "aggregate (st_summ st) = Inr mm" by blast
  from ra_call_after_loop [OF lp ne] obtain la where la: "ra_call (st_loss_avg st) = Inr la"
    by blast
  from lp agg la have "evaluate None model loss_fn metrics it n = (Inr (mm, la), [], it')"
    by (simp add: evaluate_def)
  then show ?thesis by blast
qed

subsection \<open>The script: assertion and file names\<close>



lemma main_load_Inl_D:
  assumes "main_load w args = (tr, Inl e)"
  shows "e = External \<or> (e = AssertionError \<and> \<not> isfile w (path_join (model_dir args) ''params.json''))"
  using assms
  by (auto simp: main_load_def Let_def split: if_splits option.splits)

lemma main_load_no_file:
  "\<not> isfile w (path_join (model_dir args) ''params.json'') \<Longrightarrow>
     main_load w args = ([IsFile (path_join (model_dir args) ''params.json'')], Inl AssertionError)"
  by (simp add: main_load_def Let_def)

text \<open>
  C7. The script ends in the \<^verbatim>\<open>AssertionError\<close> of its \<^verbatim>\<open>assert\<close> statement if and
  only if \<^verbatim>\<open>params.json\<close> in the model directory is not a file: that is the only
  condition the script asserts.
\<close>

theorem script_assertion:
  "snd (main w args) = Inl AssertionError \<longleftrightarrow>
     \<not> isfile w (path_join (model_dir args) ''params.json'')"
proof
  assume "\<not> isfile w (path_join (model_dir args) ''params.json'')"
  from main_load_no_file [OF this] show "snd (main w args) = Inl AssertionError"
    by (simp add: main_def)
next
  assume a: "snd (main w args) = Inl AssertionError"
  obtain tr res where ml: "main_load w args = (tr, res)" by (cases "main_load w args") auto
  show "\<not> isfile w (path_join (model_dir args) ''params.json'')"
  proof (cases res)
    case (Inl e)
    with a ml have "e = AssertionError" by (simp add: main_def)
    with main_load_Inl_D [of w args tr e] ml Inl show ?thesis by simp
  next
    case (Inr loaded)
    obtain params test restored where l: "loaded = (params, test, restored)"
      by (cases loaded) auto
    define ev where "ev = evaluate (Some \<lparr>g_model_dir = model_dir args, g_sid2tag = sid2tag test\<rparr>)
                       (forward w restored) (net_loss_fn w) (net_metrics w)
                       \<lparr>remaining = batches test, next_calls = 0\<rparr>
                       ((t_size test + 1) div batch_size params)"
    have "fst ev \<noteq> Inl AssertionError"
      using evaluate_errors [of "Some \<lparr>g_model_dir = model_dir args, g_sid2tag = sid2tag test\<rparr>"
          "forward w restored" "net_loss_fn w" "net_metrics w"
          "\<lparr>remaining = batches test, next_calls = 0\<rparr>"
          "(t_size test + 1) div batch_size params" AssertionError]
      unfolding ev_def by auto
    moreover obtain r wr it' where "ev = (r, wr, it')" by (cases ev) auto
    ultimately have "snd (main w args) \<noteq> Inl AssertionError"
      using ml Inr l
      by (auto simp: main_def Let_def ev_def [symmetric] split: sum.splits prod.splits if_splits)
    with a show ?thesis by simp
  qed
qed

text \<open>
  The example world, and the same world without the configuration file.
\<close>

theorem script_assertion_witness:
  "snd (main unconfigured_world default_args) = Inl AssertionError \<and>
   snd (main example_world default_args) \<noteq> Inl AssertionError"
proof -
  have "\<not> isfile unconfigured_world (path_join (model_dir default_args) ''params.json'')"
    by (simp add: unconfigured_world_def)
  with script_assertion [of unconfigured_world default_args]
  have "snd (main unconfigured_world default_args) = Inl AssertionError" by simp
  moreover have "isfile example_world (path_join (model_dir default_args) ''params.json'')"
    by code_simp
  with script_assertion [of example_world default_args]
  have "snd (main example_world default_args) \<noteq> Inl AssertionError" by simp
  ultimately show ?thesis by simp
qed



text \<open>Whatever the outcome of a run, its file accesses use these names and no others.\<close>

lemma main_load_trace:
  assumes "main_load w args = (tr, res)"
  shows "set tr \<subseteq> {IsFile (path_join (model_dir args) ''params.json''),
               ReadJson (path_join (model_dir args) ''params.json''),
               LogFile (path_join (model_dir args) ''evaluate.log''),
               LoadData (data_dir args),
               LoadCheckpoint (path_join (model_dir args) (restore_file args @ ''.pth.tar''))}"
  using assms
  by (auto simp: main_load_def Let_def split: if_splits option.splits)

lemma evaluate_written:
  assumes "evaluate (Some g) model loss_fn metrics it n = (res, wr, it')"
  shows "wr = [] \<or> (\<exists>c. wr = [(path_join (g_model_dir g) ''output_tagged_sentences.txt'', c)])"
  using assms
  by (auto simp: evaluate_def Let_def split: prod.splits sum.splits)

lemma main_trace:
  assumes "main w args = (tr, res)"
  shows "set tr \<subseteq>
     {IsFile (path_join (model_dir args) ''params.json''),
      ReadJson (path_join (model_dir args) ''params.json''),
      LogFile (path_join (model_dir args) ''evaluate.log''),
      LoadData (data_dir args),
      LoadCheckpoint (path_join (model_dir args) (restore_file args @ ''.pth.tar''))} \<union>
     range (WriteText (path_join (model_dir args) ''output_tagged_sentences.txt'')) \<union>
     range (SaveJson (path_join (model_dir args)
                        (''metrics_test_'' @ restore_file args @ ''.json'')))"
proof -
  define L where "L = {IsFile (path_join (model_dir args) ''params.json''),
      ReadJson (path_join (model_dir args) ''params.json''),
      LogFile (path_join (model_dir args) ''evaluate.log''),
      LoadData (data_dir args),
      LoadCheckpoint (path_join (model_dir args) (restore_file args @ ''.pth.tar''))}"
  define W where "W = range (WriteText (path_join (model_dir args) ''output_tagged_sentences.txt''))"
  define save_path where
    "save_path = path_join (model_dir args) (''metrics_test_'' @ restore_file args @ ''.json'')"
  define S where "S = range (SaveJson save_path)"
  obtain e5 r where ml: "main_load w args = (e5, r)" by (cases "main_load w args") auto
  from main_load_trace [OF ml] have e5: "set e5 \<subseteq> L" by (simp only: L_def)
  have "set tr \<subseteq> L \<union> W \<union> S"
  proof (cases r)
    case (Inl e)
    with assms ml have "tr = e5" by (simp add: main_def)
    with e5 show ?thesis by blast
  next
    case (Inr loaded)
    obtain params test restored where l: "loaded = (params, test, restored)"
      by (cases loaded) auto
    show ?thesis
    proof (cases "batch_size params = 0")
      case True
      with assms ml Inr l have "tr = e5" by (simp add: main_def)
      with e5 show ?thesis by blast
    next
      case False
      define g where "g = \<lparr>g_model_dir = model_dir args, g_sid2tag = sid2tag test\<rparr>"
      obtain x wr it' where ev: "evaluate (Some g) (forward w restored) (net_loss_fn w)
          (net_metrics w) \<lparr>remaining = batches test, next_calls = 0\<rparr>
          ((t_size test + 1) div batch_size params) = (x, wr, it')"
        by (cases "evaluate (Some g) (forward w restored) (net_loss_fn w)
          (net_metrics w) \<lparr>remaining = batches test, next_calls = 0\<rparr>
          ((t_size test + 1) div batch_size params)") auto
      define e6 where "e6 = e5 @ map (\<lambda>(p, c). WriteText p c) wr"
      from evaluate_written [OF ev] have "set (map (\<lambda>(p, c). WriteText p c) wr) \<subseteq> W"
        by (auto simp: g_def W_def)
      with e5 have e6: "set e6 \<subseteq> L \<union> W"
        unfolding e6_def by auto
      from assms ml Inr l False ev
      have "tr = e6 \<or> (\<exists>d. tr = e6 @ [SaveJson save_path d])"
        by (auto simp: main_def Let_def g_def [symmetric] e6_def save_path_def
            split: sum.splits if_splits)
      moreover have "SaveJson save_path d \<in> S" for d
        by (simp add: S_def)
      ultimately show ?thesis using e6 by auto
    qed
  qed
  then show ?thesis by (simp only: L_def W_def S_def save_path_def)
qed

end
